theory Spec2Isabelle
  imports Main "HOL-Library.Multiset" "HOL-Library.Sublist"
begin

section \<open>Path arithmetic used by \<open>sftp_tool.py\<close>\<close>

text \<open>
  Paths are Python \<open>str\<close> values, modelled as \<open>string\<close>. The only characters the
  code inspects are \<open>/\<close> and the backslash, both ASCII, so the byte view of
  \<open>string\<close> and Python's code-point view agree on every operation below.
\<close>

definition sep :: char where
  "sep = CHR ''/''"

definition backslash :: char where
  "backslash = CHR 0x5C"

definition startswith_sep :: "string \<Rightarrow> bool" where
  "startswith_sep p = (case p of [] \<Rightarrow> False | c # _ \<Rightarrow> c = sep)"

definition endswith_sep :: "string \<Rightarrow> bool" where
  "endswith_sep p = (p \<noteq> [] \<and> last p = sep)"

text \<open>
  One round of the loop of \<open>posixpath.join(a, *p)\<close>:
  \<^verbatim>\<open>
  if b.startswith(sep):               path = b
  elif not path or path.endswith(sep): path += b
  else:                                path += sep + b
  \<close>
\<close>

definition join_step :: "string \<Rightarrow> string \<Rightarrow> string" where
  "join_step path b =
     (if startswith_sep b then b
      else if path = [] \<or> endswith_sep path then path @ b
      else path @ [sep] @ b)"

definition posixpath_join :: "string \<Rightarrow> string list \<Rightarrow> string" where
  "posixpath_join a p = foldl join_step a p"

text \<open>\<open>s.replace("\\", "/")\<close>: every backslash becomes a slash.\<close>

definition replace_backslash :: "string \<Rightarrow> string" where
  "replace_backslash s = map (\<lambda>c. if c = backslash then sep else c) s"

text \<open>
  \<^verbatim>\<open>
  def _join_remote(*parts: str) -> str:
      cleaned = [part for part in parts if part not in (None, "")]
      if not cleaned:
          return ""
      return posixpath.join(*cleaned).replace("\\", "/")
  \<close>
  The parameter is annotated \<open>*parts: str\<close> and every caller passes strings, so the
  fragments are a \<open>string list\<close>; the \<open>None\<close> alternative of the filter has no
  inhabitant at that type.
\<close>

definition join_remote :: "string list \<Rightarrow> string" where
  "join_remote parts =
     (let cleaned = filter (\<lambda>part. part \<noteq> []) parts
      in case cleaned of
           [] \<Rightarrow> []
         | a # p \<Rightarrow> replace_backslash (posixpath_join a p))"

text \<open>
  The reading of the specification sentence taken word for word: the non-empty
  fragments with one \<open>/\<close> between each two neighbours, backslashes normalised.
\<close>

fun intercalate_sep :: "string list \<Rightarrow> string" where
  "intercalate_sep [] = []"
| "intercalate_sep [a] = a"
| "intercalate_sep (a # b # p) = a @ [sep] @ intercalate_sep (b # p)"

definition spec_joinRemote :: "string list \<Rightarrow> string" where
  "spec_joinRemote parts = replace_backslash (intercalate_sep (filter (\<lambda>part. part \<noteq> []) parts))"

text \<open>
  \<^verbatim>\<open>
  def dirname(p):
      i = p.rfind(sep) + 1
      head = p[:i]
      if head and head != sep*len(head):
          head = head.rstrip(sep)
      return head
  \<close>
\<close>

definition rfind_sep :: "string \<Rightarrow> int" where
  "rfind_sep p =
     (if sep \<in> set p
      then int (length p) - 1 - int (length (takeWhile (\<lambda>c. c \<noteq> sep) (rev p)))
      else - 1)"

definition rstrip_sep :: "string \<Rightarrow> string" where
  "rstrip_sep s = rev (dropWhile (\<lambda>c. c = sep) (rev s))"

definition dirname :: "string \<Rightarrow> string" where
  "dirname p =
     (let i = rfind_sep p + 1;
          head = take (nat i) p
      in if head \<noteq> [] \<and> head \<noteq> replicate (length head) sep
         then rstrip_sep head else head)"

text \<open>\<open>str.split("/")\<close>: the pieces between separators, empty pieces kept.\<close>

fun split_sep :: "string \<Rightarrow> string list" where
  "split_sep [] = [[]]"
| "split_sep (c # cs) =
     (if c = sep then [] # split_sep cs
      else (case split_sep cs of [] \<Rightarrow> [[c]] | x # xs \<Rightarrow> (c # x) # xs))"

text \<open>
  \<open>posixpath.normpath\<close>: empty and \<open>.\<close> components are dropped, \<open>..\<close> cancels the
  component before it, exactly two leading slashes are kept as two.
\<close>

definition norm_step :: "nat \<Rightarrow> string list \<Rightarrow> string \<Rightarrow> string list" where
  "norm_step initial_slashes new_comps piece =
     (if piece = [] \<or> piece = ''.'' then new_comps
      else if piece \<noteq> ''..'' \<or> (initial_slashes = 0 \<and> new_comps = [])
                \<or> (new_comps \<noteq> [] \<and> last new_comps = ''..'')
           then new_comps @ [piece]
      else if new_comps \<noteq> [] then butlast new_comps
      else new_comps)"

definition normpath :: "string \<Rightarrow> string" where
  "normpath path =
     (if path = [] then ''.''
      else
        let initial_slashes =
              (if startswith_sep path
               then (if take 2 path = ''//'' \<and> take 3 path \<noteq> ''///'' then 2 else 1)
               else 0);
            comps = foldl (norm_step initial_slashes) [] (split_sep path);
            joined = replicate initial_slashes sep @ intercalate_sep comps
        in if joined = [] then ''.'' else joined)"

section \<open>Exceptions, the remote session and the local file system\<close>

text \<open>
  Every exception the code raises or lets through is a value. \<open>SystemExit\<close> carries
  the message of the \<open>raise SystemExit(...)\<close> statements; \<open>FileNotFoundError\<close> is what
  the session's \<open>stat\<close> raises for a missing path; \<open>OtherError\<close> stands for any other
  exception of a primitive (connection, permission, ...), which no handler of the
  code catches; \<open>ValueError\<close> is what \<open>os.path.relpath\<close> raises on an empty path.
\<close>

datatype exn = SystemExit string | FileNotFoundError | OtherError string | ValueError

text \<open>
  The calls observed during a run, in order. \<open>Stat\<close>, \<open>Mkdir\<close>, \<open>Put\<close>, \<open>Get\<close> and
  \<open>ListdirAttr\<close> are the calls on \<open>self.sftp\<close>; \<open>LocalMkdir\<close> is
  \<open>Path.mkdir(parents=True, exist_ok=True)\<close>; \<open>EnsureRemoteDir\<close> records that
  \<open>_ensure_remote_dir\<close> was entered with the given argument.
\<close>

datatype call =
    EnsureRemoteDir string
  | Stat string
  | Mkdir string
  | Put string string
  | Get string string
  | ListdirAttr string
  | LocalMkdir string

datatype stat_reply = NotFound | StatFails string | Attrs int

text \<open>
  The world the client talks to. \<open>rstat\<close> is what the server answers to \<open>stat\<close> for
  each path (the \<open>st_mode\<close> on success); a successful \<open>mkdir\<close> or \<open>put\<close> makes later
  \<open>stat\<close>s of that path succeed. The reply tables say which calls fail, with the
  text of the exception. Paths are opaque keys of the server.
\<close>

record world =
  rstat :: "string \<Rightarrow> stat_reply"
  rlistdir :: "string \<Rightarrow> string + (string \<times> int) list"
  mkdir_reply :: "string \<Rightarrow> string option"
  put_reply :: "string \<Rightarrow> string \<Rightarrow> string option"
  get_reply :: "string \<Rightarrow> string \<Rightarrow> string option"
  lmkdir_reply :: "string \<Rightarrow> string option"
  calls :: "call list"

type_synonym 'a result = "(exn + 'a) \<times> world"

definition log_call :: "call \<Rightarrow> world \<Rightarrow> world" where
  "log_call c w = w\<lparr>calls := calls w @ [c]\<rparr>"

definition S_IFDIR_mode :: int where
  "S_IFDIR_mode = 16384"

definition S_IFREG_mode :: int where
  "S_IFREG_mode = 32768"

text \<open>\<open>stat.S_ISDIR(mode)\<close> is \<open>(mode & 0o170000) == 0o040000\<close>.\<close>

definition S_ISDIR :: "int \<Rightarrow> bool" where
  "S_ISDIR mode = (and mode 61440 = S_IFDIR_mode)"

definition sftp_stat :: "world \<Rightarrow> string \<Rightarrow> int result" where
  "sftp_stat w path =
     (let w' = log_call (Stat path) w
      in case rstat w path of
           NotFound \<Rightarrow> (Inl FileNotFoundError, w')
         | StatFails msg \<Rightarrow> (Inl (OtherError msg), w')
         | Attrs st_mode \<Rightarrow> (Inr st_mode, w'))"

definition sftp_mkdir :: "world \<Rightarrow> string \<Rightarrow> unit result" where
  "sftp_mkdir w path =
     (let w' = log_call (Mkdir path) w
      in case mkdir_reply w path of
           Some msg \<Rightarrow> (Inl (OtherError msg), w')
         | None \<Rightarrow> (Inr (), w'\<lparr>rstat := (rstat w')(path := Attrs (S_IFDIR_mode + 511))\<rparr>))"

definition sftp_put :: "world \<Rightarrow> string \<Rightarrow> string \<Rightarrow> unit result" where
  "sftp_put w localpath remotepath =
     (let w' = log_call (Put localpath remotepath) w
      in case put_reply w localpath remotepath of
           Some msg \<Rightarrow> (Inl (OtherError msg), w')
         | None \<Rightarrow> (Inr (), w'\<lparr>rstat := (rstat w')(remotepath := Attrs (S_IFREG_mode + 420))\<rparr>))"

definition sftp_get :: "world \<Rightarrow> string \<Rightarrow> string \<Rightarrow> unit result" where
  "sftp_get w remotepath localpath =
     (let w' = log_call (Get remotepath localpath) w
      in case get_reply w remotepath localpath of
           Some msg \<Rightarrow> (Inl (OtherError msg), w')
         | None \<Rightarrow> (Inr (), w'))"

definition sftp_listdir_attr :: "world \<Rightarrow> string \<Rightarrow> (string \<times> int) list result" where
  "sftp_listdir_attr w path =
     (let w' = log_call (ListdirAttr path) w
      in case rlistdir w path of
           Inl msg \<Rightarrow> (Inl (OtherError msg), w')
         | Inr entries \<Rightarrow> (Inr entries, w'))"

subsection \<open>\<open>pathlib\<close> paths\<close>

text \<open>
  A \<open>pathlib.PurePosixPath\<close> is its root (empty, \<open>/\<close> or \<open>//\<close>) and its components;
  parsing drops empty and \<open>.\<close> components.
\<close>

datatype ppath = PPath (proot: string) (pparts: "string list")

definition parse_ppath :: "string \<Rightarrow> ppath" where
  "parse_ppath s =
     PPath (if startswith_sep s
            then (if length (takeWhile (\<lambda>c. c = sep) s) = 2 then ''//'' else ''/'')
            else [])
           (filter (\<lambda>x. x \<noteq> [] \<and> x \<noteq> ''.'') (split_sep s))"

definition ppath_str :: "ppath \<Rightarrow> string" where
  "ppath_str p =
     (if proot p = [] \<and> pparts p = [] then ''.''
      else proot p @ intercalate_sep (pparts p))"

text \<open>\<open>p / name\<close>: an absolute right operand replaces the left one.\<close>

definition ppath_child :: "ppath \<Rightarrow> string \<Rightarrow> ppath" where
  "ppath_child p name =
     (let q = parse_ppath name
      in if proot q \<noteq> [] then q else PPath (proot p) (pparts p @ pparts q))"

definition ppath_parent :: "ppath \<Rightarrow> ppath" where
  "ppath_parent p = (if pparts p = [] then p else PPath (proot p) (butlast (pparts p)))"

subsection \<open>The local file system\<close>

text \<open>
  A local directory is the names of its non-directory entries and its subdirectories,
  each in the order \<open>os.scandir\<close> returns them. \<open>os.walk\<close> does not descend into
  symbolic links to directories, and the code never reads the \<open>dirs\<close> component, so
  only real subdirectories are kept.
\<close>

datatype ltree = LDir (lfiles: "string list") (lsubdirs: "(string \<times> ltree) list")

datatype lentry = Missing | RegularFile | Directory ltree

text \<open>
  What the code reads from the local machine: \<open>os.path.expanduser\<close>, the current
  directory, the entry at a path, and \<open>Path(s).expanduser().resolve()\<close>.
\<close>

record localfs =
  expanduser :: "string \<Rightarrow> string"
  getcwd :: string
  lnode :: "string \<Rightarrow> lentry"
  resolve :: "string \<Rightarrow> ppath"

definition os_path_exists :: "localfs \<Rightarrow> string \<Rightarrow> bool" where
  "os_path_exists fs path = (lnode fs path \<noteq> Missing)"

definition os_path_isdir :: "localfs \<Rightarrow> string \<Rightarrow> bool" where
  "os_path_isdir fs path = (case lnode fs path of Directory _ \<Rightarrow> True | _ \<Rightarrow> False)"

definition abspath :: "localfs \<Rightarrow> string \<Rightarrow> string" where
  "abspath fs path =
     (if \<not> startswith_sep path then normpath (posixpath_join (getcwd fs) [path])
      else normpath path)"

fun commonprefix :: "string list \<Rightarrow> string list \<Rightarrow> string list" where
  "commonprefix (x # xs) (y # ys) = (if x = y then x # commonprefix xs ys else [])"
| "commonprefix _ _ = []"

definition relpath :: "localfs \<Rightarrow> string \<Rightarrow> string \<Rightarrow> exn + string" where
  "relpath fs path start =
     (if path = [] then Inl ValueError
      else
        let start_list = filter (\<lambda>x. x \<noteq> []) (split_sep (abspath fs start));
            path_list = filter (\<lambda>x. x \<noteq> []) (split_sep (abspath fs path));
            i = length (commonprefix start_list path_list);
            rel_list = replicate (length start_list - i) ''..'' @ drop i path_list
        in case rel_list of
             [] \<Rightarrow> Inr ''.''
           | a # p \<Rightarrow> Inr (posixpath_join a p))"

text \<open>
  \<open>os.walk(top)\<close>, top-down: the triple of a directory, then the walks of its
  subdirectories in order. A \<open>top\<close> that is not a directory yields nothing.
\<close>

fun walk_tree :: "string \<Rightarrow> ltree \<Rightarrow> (string \<times> string list \<times> string list) list" where
  "walk_tree topdir (LDir fnames subs) =
     (topdir, map fst subs, fnames)
     # concat (map (\<lambda>(name, t). walk_tree (posixpath_join topdir [name]) t) subs)"

definition os_walk :: "localfs \<Rightarrow> string \<Rightarrow> (string \<times> string list \<times> string list) list" where
  "os_walk fs topdir = (case lnode fs topdir of Directory t \<Rightarrow> walk_tree topdir t | _ \<Rightarrow> [])"

section \<open>\<open>SFTPClient\<close>\<close>

text \<open>
  The methods of \<open>SFTPClient\<close> keep their names without the leading underscore. The
  \<open>print\<close> statements are not modelled.
\<close>

subsection \<open>\<open>_ensure_remote_dir\<close>\<close>

text \<open>
  \<^verbatim>\<open>
  parts = []; path = remote_dir
  while path not in ("", "/"):
      parts.append(path)
      path = posixpath.dirname(path)
  \<close>
  The loop does not end on every input (\<open>dirname("//") == "//"\<close>), so it is a partial
  function: \<open>None\<close> is the run that never leaves the loop.
\<close>

partial_function (option) collect_parts :: "string \<Rightarrow> string list \<Rightarrow> string list option" where
  "collect_parts path parts =
     (if path = [] \<or> path = ''/'' then Some parts
      else collect_parts (dirname path) (parts @ [path]))"

declare collect_parts.simps [code]

text \<open>
  \<^verbatim>\<open>
  for directory in reversed(parts):
      try:
          self.sftp.stat(directory)
      except FileNotFoundError:
          self.sftp.mkdir(directory)
  \<close>
\<close>

fun ensure_loop :: "world \<Rightarrow> string list \<Rightarrow> unit result" where
  "ensure_loop w [] = (Inr (), w)"
| "ensure_loop w (directory # rest) =
     (case sftp_stat w directory of
        (Inr _, w1) \<Rightarrow> ensure_loop w1 rest
      | (Inl FileNotFoundError, w1) \<Rightarrow>
          (case sftp_mkdir w1 directory of
             (Inl e, w2) \<Rightarrow> (Inl e, w2)
           | (Inr _, w2) \<Rightarrow> ensure_loop w2 rest)
      | (Inl e, w1) \<Rightarrow> (Inl e, w1))"

definition ensure_remote_dir :: "world \<Rightarrow> string \<Rightarrow> unit result option" where
  "ensure_remote_dir w remote_dir =
     (let w0 = log_call (EnsureRemoteDir remote_dir) w
      in if remote_dir = [] \<or> remote_dir = ''.'' then Some (Inr (), w0)
         else case collect_parts remote_dir [] of
                None \<Rightarrow> None
              | Some parts \<Rightarrow> Some (ensure_loop w0 (rev parts)))"

subsection \<open>\<open>_is_remote_dir\<close>\<close>

definition is_remote_dir :: "world \<Rightarrow> string \<Rightarrow> bool result" where
  "is_remote_dir w remote_path =
     (case sftp_stat w remote_path of
        (Inl FileNotFoundError, w1) \<Rightarrow>
          (Inl (SystemExit (''Remote path does not exist: '' @ remote_path)), w1)
      | (Inl e, w1) \<Rightarrow> (Inl e, w1)
      | (Inr st_mode, w1) \<Rightarrow> (Inr (S_ISDIR st_mode), w1))"

subsection \<open>\<open>upload\<close> and \<open>_upload_directory\<close>\<close>

text \<open>The inner loop of \<open>_upload_directory\<close>: \<open>for filename in files\<close>.\<close>

fun upload_files :: "world \<Rightarrow> string \<Rightarrow> string \<Rightarrow> string list \<Rightarrow> unit result" where
  "upload_files w root remote_root [] = (Inr (), w)"
| "upload_files w root remote_root (filename # rest) =
     (let local_file = posixpath_join root [filename];
          remote_file = join_remote [remote_root, filename]
      in case sftp_put w local_file remote_file of
           (Inl e, w1) \<Rightarrow> (Inl e, w1)
         | (Inr _, w1) \<Rightarrow> upload_files w1 root remote_root rest)"

text \<open>The outer loop: \<open>for root, dirs, files in os.walk(local_dir)\<close>.\<close>

fun upload_walk ::
  "localfs \<Rightarrow> world \<Rightarrow> string \<Rightarrow> string \<Rightarrow> (string \<times> string list \<times> string list) list
   \<Rightarrow> unit result option" where
  "upload_walk fs w local_dir remote_dir [] = Some (Inr (), w)"
| "upload_walk fs w local_dir remote_dir ((root, dirs, fnames) # rest) =
     (case relpath fs root local_dir of
        Inl e \<Rightarrow> Some (Inl e, w)
      | Inr rel \<Rightarrow>
         (let rel_root = (if rel = ''.'' then [] else rel);
              remote_root = join_remote [remote_dir, rel_root]
          in case ensure_remote_dir w remote_root of
               None \<Rightarrow> None
             | Some (Inl e, w1) \<Rightarrow> Some (Inl e, w1)
             | Some (Inr _, w1) \<Rightarrow>
                 (case upload_files w1 root remote_root fnames of
                    (Inl e, w2) \<Rightarrow> Some (Inl e, w2)
                  | (Inr _, w2) \<Rightarrow> upload_walk fs w2 local_dir remote_dir rest)))"

definition upload_directory :: "localfs \<Rightarrow> world \<Rightarrow> string \<Rightarrow> string \<Rightarrow> unit result option" where
  "upload_directory fs w local_dir remote_dir =
     (let local_dir = abspath fs local_dir
      in upload_walk fs w local_dir remote_dir (os_walk fs local_dir))"

definition upload :: "localfs \<Rightarrow> world \<Rightarrow> string \<Rightarrow> string \<Rightarrow> unit result option" where
  "upload fs w local_path remote_path =
     (let local_path = expanduser fs local_path
      in if \<not> os_path_exists fs local_path
         then Some (Inl (SystemExit (''Local path does not exist: '' @ local_path)), w)
         else if os_path_isdir fs local_path
         then upload_directory fs w local_path remote_path
         else
           (let remote_dir = dirname remote_path
            in case (if remote_dir \<noteq> [] then ensure_remote_dir w remote_dir
                     else Some (Inr (), w)) of
                 None \<Rightarrow> None
               | Some (Inl e, w1) \<Rightarrow> Some (Inl e, w1)
               | Some (Inr _, w1) \<Rightarrow> Some (sftp_put w1 local_path remote_path)))"

subsection \<open>\<open>download\<close> and \<open>_download_directory\<close>\<close>

definition local_mkdir :: "world \<Rightarrow> ppath \<Rightarrow> unit result" where
  "local_mkdir w p =
     (let w' = log_call (LocalMkdir (ppath_str p)) w
      in case lmkdir_reply w (ppath_str p) of
           Some msg \<Rightarrow> (Inl (OtherError msg), w')
         | None \<Rightarrow> (Inr (), w'))"

text \<open>
  \<open>_download_directory\<close> calls itself for every entry that is a directory, as deep as
  the server's listings go. The first argument bounds the depth of the calls; \<open>None\<close>
  is a run that needs more.
\<close>

fun download_directory :: "nat \<Rightarrow> localfs \<Rightarrow> world \<Rightarrow> string \<Rightarrow> string \<Rightarrow> unit result option"
  and download_entries ::
    "nat \<Rightarrow> localfs \<Rightarrow> world \<Rightarrow> string \<Rightarrow> ppath \<Rightarrow> (string \<times> int) list \<Rightarrow> unit result option"
  where
  "download_directory 0 fs w remote_dir local_dir = None"
| "download_directory (Suc depth) fs w remote_dir local_dir =
     (let local_dir_path = resolve fs local_dir
      in case local_mkdir w local_dir_path of
           (Inl e, w1) \<Rightarrow> Some (Inl e, w1)
         | (Inr _, w1) \<Rightarrow>
             (case sftp_listdir_attr w1 remote_dir of
                (Inl e, w2) \<Rightarrow> Some (Inl e, w2)
              | (Inr entries, w2) \<Rightarrow>
                  download_entries depth fs w2 remote_dir local_dir_path entries))"
| "download_entries depth fs w remote_dir local_dir_path [] = Some (Inr (), w)"
| "download_entries depth fs w remote_dir local_dir_path ((filename, st_mode) # rest) =
     (let remote_child = join_remote [remote_dir, filename];
          local_child = ppath_child local_dir_path filename
      in if S_ISDIR st_mode
         then (case download_directory depth fs w remote_child (ppath_str local_child) of
                 None \<Rightarrow> None
               | Some (Inl e, w1) \<Rightarrow> Some (Inl e, w1)
               | Some (Inr _, w1) \<Rightarrow>
                   download_entries depth fs w1 remote_dir local_dir_path rest)
         else (case local_mkdir w (ppath_parent local_child) of
                 (Inl e, w1) \<Rightarrow> Some (Inl e, w1)
               | (Inr _, w1) \<Rightarrow>
                   (case sftp_get w1 remote_child (ppath_str local_child) of
                      (Inl e, w2) \<Rightarrow> Some (Inl e, w2)
                    | (Inr _, w2) \<Rightarrow>
                        download_entries depth fs w2 remote_dir local_dir_path rest)))"

definition download ::
  "nat \<Rightarrow> localfs \<Rightarrow> world \<Rightarrow> string \<Rightarrow> string \<Rightarrow> unit result option" where
  "download depth fs w remote_path local_path =
     (case is_remote_dir w remote_path of
        (Inl e, w1) \<Rightarrow> Some (Inl e, w1)
      | (Inr True, w1) \<Rightarrow> download_directory depth fs w1 remote_path local_path
      | (Inr False, w1) \<Rightarrow>
          (let local_parent = ppath_parent (resolve fs local_path)
           in case local_mkdir w1 local_parent of
                (Inl e, w2) \<Rightarrow> Some (Inl e, w2)
              | (Inr _, w2) \<Rightarrow> Some (sftp_get w2 remote_path local_path)))"

section \<open>Observing a run\<close>

text \<open>The calls a run added to the log, and whether the server knows a path.\<close>

definition new_calls :: "world \<Rightarrow> world \<Rightarrow> call list" where
  "new_calls w w' = drop (length (calls w)) (calls w')"

definition rexists :: "world \<Rightarrow> string \<Rightarrow> bool" where
  "rexists w p = (case rstat w p of Attrs _ \<Rightarrow> True | _ \<Rightarrow> False)"

fun is_mkdir :: "call \<Rightarrow> bool" where
  "is_mkdir (Mkdir _) = True"
| "is_mkdir _ = False"

text \<open>A server on which nothing exists yet and no call fails.\<close>

definition empty_server :: world where
  "empty_server =
     \<lparr>rstat = (\<lambda>_. NotFound), rlistdir = (\<lambda>_. Inr []), mkdir_reply = (\<lambda>_. None),
      put_reply = (\<lambda>_ _. None), get_reply = (\<lambda>_ _. None), lmkdir_reply = (\<lambda>_. None),
      calls = []\<rparr>"

text \<open>A local machine without any file, and a server with one file \<open>/r/onefile.txt\<close>.\<close>

definition no_local :: localfs where
  "no_local = \<lparr>expanduser = (\<lambda>p. p), getcwd = ''/work'', lnode = (\<lambda>_. Missing),
                resolve = parse_ppath\<rparr>"


section \<open>Order of the calls\<close>


text \<open>
  The remote directory \<open>_upload_directory\<close> computes for a walked directory
  \<open>root\<close> (\<open>remote_root\<close> in the source).
\<close>

definition remote_root :: "localfs \<Rightarrow> string \<Rightarrow> string \<Rightarrow> string \<Rightarrow> string" where
  "remote_root fs local_dir remote_dir root =
     (case relpath fs root local_dir of
        Inl _ \<Rightarrow> []
      | Inr rel \<Rightarrow> join_remote [remote_dir, if rel = ''.'' then [] else rel])"

text \<open>
  The specification's order for an upload, written out: for each directory of the
  walk, in the walk's order, materialise the mapped directory, then put its files in
  listed order.
\<close>

definition entry_plan ::
  "localfs \<Rightarrow> string \<Rightarrow> string \<Rightarrow> string \<times> string list \<times> string list \<Rightarrow> call list" where
  "entry_plan fs local_dir remote_dir entry =
     (case entry of (root, dirs, fnames) \<Rightarrow>
        EnsureRemoteDir (remote_root fs local_dir remote_dir root)
        # map (\<lambda>filename. Put (posixpath_join root [filename])
                              (join_remote [remote_root fs local_dir remote_dir root, filename]))
              fnames)"

definition upload_plan ::
  "localfs \<Rightarrow> string \<Rightarrow> string \<Rightarrow> (string \<times> string list \<times> string list) list \<Rightarrow> call list" where
  "upload_plan fs local_dir remote_dir entries = concat (map (entry_plan fs local_dir remote_dir) entries)"

text \<open>
  The scenario of the specification: the local tree \<open>root/a.txt\<close>, \<open>root/sub/b.txt\<close>,
  with \<open>/work\<close> as current directory.
\<close>

definition scenario_fs :: localfs where
  "scenario_fs =
     \<lparr>expanduser = (\<lambda>p. p), getcwd = ''/work'',
      lnode = (\<lambda>p. if p = ''root'' \<or> p = ''/work/root''
                    then Directory (LDir [''a.txt''] [(''sub'', LDir [''b.txt''] [])])
                    else Missing),
      resolve = parse_ppath\<rparr>"

text \<open>
  A local directory \<open>root\<close> on a POSIX machine whose only entry is one regular file
  with a backslash in its name: \<open>a\<close>, backslash, \<open>b.txt\<close>.
\<close>

definition backslash_name :: string where
  "backslash_name = ''a'' @ [backslash] @ ''b.txt''"

definition backslash_fs :: localfs where
  "backslash_fs =
     \<lparr>expanduser = (\<lambda>p. p), getcwd = ''/work'',
      lnode = (\<lambda>p. if p = ''root'' \<or> p = ''/work/root''
                    then Directory (LDir [backslash_name] [])
                    else if p = ''root/'' @ backslash_name \<or> p = ''/work/root/'' @ backslash_name
                    then RegularFile
                    else Missing),
      resolve = parse_ppath\<rparr>"

text \<open>What is observed of a run started in \<open>w\<close>: its result, the calls it made, and
  whether the server knows the path \<open>p\<close> afterwards.\<close>

definition observed ::
  "world \<Rightarrow> string \<Rightarrow> unit result option \<Rightarrow> ((exn + unit) \<times> call list \<times> bool) option" where
  "observed w p run = map_option (\<lambda>(r, w'). (r, new_calls w w', rexists w' p)) run"


text \<open>
  A world in which no call of a primitive fails: \<open>stat\<close> finds the path or raises
  \<open>FileNotFoundError\<close>, and \<open>mkdir\<close>, \<open>put\<close>, \<open>get\<close> and the local \<open>mkdir\<close> succeed.
\<close>

definition never_fails :: "world \<Rightarrow> bool" where
  "never_fails w =
     ((\<forall>p msg. rstat w p \<noteq> StatFails msg) \<and> (\<forall>p. mkdir_reply w p = None)
      \<and> (\<forall>l r. put_reply w l r = None) \<and> (\<forall>r l. get_reply w r l = None)
      \<and> (\<forall>p. lmkdir_reply w p = None))"

text \<open>
  \<open>listed depth listing remote_dir\<close>: the server lists \<open>remote_dir\<close> and every directory
  \<open>_download_directory\<close> reaches below it, and the calls for them nest at most
  \<open>depth\<close> deep.
\<close>

fun listed :: "nat \<Rightarrow> (string \<Rightarrow> string + (string \<times> int) list) \<Rightarrow> string \<Rightarrow> bool" where
  "listed 0 listing remote_dir = False"
| "listed (Suc depth) listing remote_dir =
     (case listing remote_dir of
        Inl _ \<Rightarrow> False
      | Inr entries \<Rightarrow>
          (\<forall>(filename, st_mode) \<in> set entries.
              S_ISDIR st_mode \<longrightarrow> listed depth listing (join_remote [remote_dir, filename])))"



section \<open>\<open>quicksort.py\<close>\<close>



text \<open>
  The same function on list objects. A store holds the contents of every list object
  and the next free reference; a comprehension and \<open>+\<close> allocate a new list, and for a
  list of at most one element the argument itself is returned. \<open>a + b + c\<close> is
  \<open>(a + b) + c\<close>, so the left half is sorted and joined to \<open>middle\<close> before the right half
  is sorted. The store is handed back also when the call raises.
\<close>

record 'a store =
  cell :: "nat \<Rightarrow> 'a list"
  next_ref :: nat



text \<open>A store whose only object, at reference 0, is the given list.\<close>

definition single_store :: "'a list \<Rightarrow> 'a store" where
  "single_store xs = \<lparr>cell = (\<lambda>a. if a = 0 then xs else []), next_ref = 1\<rparr>"


text \<open>
  A family of inputs for \<open>quicksort\<close>: \<open>adversary n\<close> has \<open>n\<close> distinct elements and its
  middle element, the pivot, is its minimum; without the pivot it is \<open>adversary (n - 1)\<close>.
\<close>

fun adversary :: "nat \<Rightarrow> int list" where
  "adversary 0 = []"
| "adversary (Suc n) =
     take (Suc n div 2) (adversary n) @ [- int (Suc n)] @ drop (Suc n div 2) (adversary n)"







section \<open>Path arithmetic: properties\<close>

lemma replace_backslash_append:
  "replace_backslash (a @ b) = replace_backslash a @ replace_backslash b"
  by (simp add: replace_backslash_def)

lemma backslash_not_in_replace: "backslash \<notin> set (replace_backslash s)"
  by (auto simp: replace_backslash_def sep_def backslash_def)

lemma foldl_join_step_plain:
  assumes "\<forall>b \<in> set p. b \<noteq> [] \<and> \<not> startswith_sep b"
    and "\<forall>b \<in> set (butlast (a # p)). \<not> endswith_sep b"
    and "a \<noteq> []"
  shows "foldl join_step (pre @ a) p = pre @ intercalate_sep (a # p)"
  using assms
proof (induction p arbitrary: a pre)
  case Nil
  then show ?case by simp
next
  case (Cons b p)
  from Cons.prems have b: "b \<noteq> []" "\<not> startswith_sep b" by auto
  from Cons.prems have a: "\<not> endswith_sep a" "a \<noteq> []" by auto
  then have e: "\<not> endswith_sep (pre @ a)" by (simp add: endswith_sep_def)
  have step: "join_step (pre @ a) b = (pre @ a @ [sep]) @ b"
    using a b e by (simp add: join_step_def)
  have "foldl join_step ((pre @ a @ [sep]) @ b) p = (pre @ a @ [sep]) @ intercalate_sep (b # p)"
    using Cons.prems b by (intro Cons.IH) auto
  then show ?case using step by simp
qed

lemma posixpath_join_plain:
  assumes "\<forall>b \<in> set p. b \<noteq> [] \<and> \<not> startswith_sep b"
    and "\<forall>b \<in> set (butlast (a # p)). \<not> endswith_sep b"
    and "a \<noteq> []"
  shows "posixpath_join a p = intercalate_sep (a # p)"
  using foldl_join_step_plain [OF assms, of "[]"] by (simp add: posixpath_join_def)

text \<open>
  Claim C7, as the specification words it: \<open>joinRemote\<close> joins the non-empty fragments
  with \<open>/\<close>. The code delegates to \<open>posixpath.join\<close>, which does not insert a second
  slash after a fragment that already ends in one: \<open>("a/", "b")\<close> gives \<open>a/b\<close> where the
  plain join gives \<open>a//b\<close>.
\<close>

theorem C7_join_remote_not_plain_join:
  "join_remote [''a/'', ''b''] = ''a/b'' \<and> spec_joinRemote [''a/'', ''b''] = ''a//b''
   \<and> join_remote [''a/'', ''b''] \<noteq> spec_joinRemote [''a/'', ''b'']"
  by (simp add: join_remote_def spec_joinRemote_def posixpath_join_def join_step_def
      startswith_sep_def endswith_sep_def replace_backslash_def sep_def backslash_def)

text \<open>What \<open>_join_remote\<close> computes, fragment by fragment.\<close>

lemma join_step_last:
  "b \<noteq> [] \<Longrightarrow> join_step path b \<noteq> [] \<and> endswith_sep (join_step path b) = endswith_sep b"
  by (auto simp: join_step_def endswith_sep_def)

lemma posixpath_join_last:
  "a \<noteq> [] \<Longrightarrow> \<forall>q \<in> set p. q \<noteq> [] \<Longrightarrow>
   posixpath_join a p \<noteq> [] \<and> endswith_sep (posixpath_join a p) = endswith_sep (last (a # p))"
proof (induction p rule: rev_induct)
  case Nil
  then show ?case by (simp add: posixpath_join_def)
next
  case (snoc b p)
  then have "b \<noteq> []" by simp
  from join_step_last [OF this, of "foldl join_step a p"] show ?case
    by (simp add: posixpath_join_def)
qed

lemma join_remote_filter:
  "join_remote parts = join_remote (filter (\<lambda>part. part \<noteq> []) parts)"
  by (simp add: join_remote_def)

lemma join_remote_snoc:
  assumes "ps \<noteq> []" and "\<forall>p \<in> set ps. p \<noteq> []" and "b \<noteq> []"
  shows "join_remote (ps @ [b]) =
           (if startswith_sep b then replace_backslash b
            else if endswith_sep (last ps) then join_remote ps @ replace_backslash b
            else join_remote ps @ [sep] @ replace_backslash b)"
proof -
  from assms(1) obtain a p where ps: "ps = a # p" by (cases ps) auto
  have f: "filter (\<lambda>part. part \<noteq> []) ps = ps" using assms(2) by (simp only: filter_id_conv)
  have a: "a \<noteq> []" and p: "\<forall>q \<in> set p. q \<noteq> []" using assms(2) ps by simp_all
  from posixpath_join_last [OF a p] have
    l: "posixpath_join a p \<noteq> []"
       "endswith_sep (posixpath_join a p) = endswith_sep (last ps)" using ps by simp_all
  have "filter (\<lambda>part. part \<noteq> []) ps = a # p" using f by (simp only: ps)
  then have 1: "join_remote ps = replace_backslash (posixpath_join a p)"
    by (simp add: join_remote_def del: filter.simps)
  have "\<forall>q \<in> set (ps @ [b]). q \<noteq> []" using assms(2,3) by simp
  then have "filter (\<lambda>part. part \<noteq> []) (ps @ [b]) = ps @ [b]"
    by (simp only: filter_id_conv)
  then have "filter (\<lambda>part. part \<noteq> []) (ps @ [b]) = a # (p @ [b])"
    by (simp only: ps append_Cons)
  then have 2: "join_remote (ps @ [b]) = replace_backslash (join_step (posixpath_join a p) b)"
    by (simp add: join_remote_def posixpath_join_def del: filter.simps filter_append)
  show ?thesis unfolding 2 1 using l
    by (simp add: join_step_def replace_backslash_append)
       (simp add: replace_backslash_def)
qed

lemma join_remote_unique:
  assumes flt: "\<And>parts. f parts = f (filter (\<lambda>part. part \<noteq> []) parts)"
    and nil: "f [] = []"
    and one: "\<And>a. a \<noteq> [] \<Longrightarrow> f [a] = replace_backslash a"
    and snoc: "\<And>ps b. ps \<noteq> [] \<Longrightarrow> \<forall>p \<in> set ps. p \<noteq> [] \<Longrightarrow> b \<noteq> [] \<Longrightarrow>
        f (ps @ [b]) =
          (if startswith_sep b then replace_backslash b
           else if endswith_sep (last ps) then f ps @ replace_backslash b
           else f ps @ [sep] @ replace_backslash b)"
  shows "f parts = join_remote parts"
proof -
  have ne: "\<forall>p \<in> set ps. p \<noteq> [] \<Longrightarrow> f ps = join_remote ps" for ps
  proof (induction ps rule: rev_induct)
    case Nil
    then show ?case using nil by (simp add: join_remote_def)
  next
    case (snoc b ps)
    then have b: "b \<noteq> []" and all: "\<forall>p \<in> set ps. p \<noteq> []" by simp_all
    show ?case
    proof (cases "ps = []")
      case True
      then show ?thesis using one [OF b] b
        by (simp add: join_remote_def posixpath_join_def)
    next
      case False
      have ih: "f ps = join_remote ps" using snoc.IH all by simp
      show ?thesis
        unfolding assms(4) [OF False all b] join_remote_snoc [OF False all b] ih ..
    qed
  qed
  have "f parts = f (filter (\<lambda>part. part \<noteq> []) parts)" by (rule flt)
  also have "\<dots> = join_remote (filter (\<lambda>part. part \<noteq> []) parts)" by (rule ne) simp
  also have "\<dots> = join_remote parts" by (rule join_remote_filter [symmetric])
  finally show ?thesis .
qed

text \<open>
  Claim C7, amended to what \<open>_join_remote\<close> computes. Empty fragments are dropped; no
  fragment gives the empty string and one fragment gives that fragment, backslashes
  normalised; and a further non-empty fragment \<open>c\<close> after the non-empty fragments \<open>ps\<close>
  gives \<open>c\<close> alone when \<open>c\<close> begins with \<open>/\<close>, the result for \<open>ps\<close> directly followed by \<open>c\<close>
  when the last fragment of \<open>ps\<close> ends with \<open>/\<close>, and the result for \<open>ps\<close>, a \<open>/\<close> and \<open>c\<close>
  otherwise, \<open>c\<close> with its backslashes normalised each time. These four equations
  determine the function (\<open>join_remote_unique\<close>). In particular the result is empty
  when no non-empty fragment remains; it never contains a backslash; a last fragment
  that begins with \<open>/\<close> replaces everything before it; and the result is the plain
  \<open>/\<close>-join of the non-empty fragments, backslashes normalised, whenever no fragment
  after the first begins with \<open>/\<close> and no fragment before the last ends with \<open>/\<close>.
\<close>

theorem C7_join_remote_amended:
  "join_remote parts = join_remote (filter (\<lambda>part. part \<noteq> []) parts)
   \<and> join_remote [] = []
   \<and> (a \<noteq> [] \<longrightarrow> join_remote [a] = replace_backslash a)
   \<and> (ps \<noteq> [] \<and> (\<forall>p \<in> set ps. p \<noteq> []) \<and> c \<noteq> [] \<longrightarrow>
        join_remote (ps @ [c]) =
          (if startswith_sep c then replace_backslash c
           else if endswith_sep (last ps) then join_remote ps @ replace_backslash c
           else join_remote ps @ [sep] @ replace_backslash c))
   \<and> (filter (\<lambda>part. part \<noteq> []) parts = [] \<longrightarrow> join_remote parts = [])
   \<and> backslash \<notin> set (join_remote parts)
   \<and> (startswith_sep b \<longrightarrow> join_remote (parts @ [b]) = replace_backslash b)
   \<and> ((\<forall>q \<in> set (tl (filter (\<lambda>part. part \<noteq> []) parts)). \<not> startswith_sep q)
        \<and> (\<forall>q \<in> set (butlast (filter (\<lambda>part. part \<noteq> []) parts)). \<not> endswith_sep q)
      \<longrightarrow> join_remote parts = spec_joinRemote parts)"
proof (intro conjI impI)
  show "join_remote parts = join_remote (filter (\<lambda>part. part \<noteq> []) parts)"
    by (rule join_remote_filter)
  show "join_remote [] = []" by (simp add: join_remote_def)
  show "join_remote [a] = replace_backslash a" if "a \<noteq> []"
    using that by (simp add: join_remote_def posixpath_join_def)
  show "join_remote (ps @ [c]) =
          (if startswith_sep c then replace_backslash c
           else if endswith_sep (last ps) then join_remote ps @ replace_backslash c
           else join_remote ps @ [sep] @ replace_backslash c)"
    if "ps \<noteq> [] \<and> (\<forall>p \<in> set ps. p \<noteq> []) \<and> c \<noteq> []"
    using that by (intro join_remote_snoc) simp_all
next
  assume "filter (\<lambda>part. part \<noteq> []) parts = []"
  then show "join_remote parts = []" by (simp add: join_remote_def)
next
  show "backslash \<notin> set (join_remote parts)"
    by (auto simp: join_remote_def Let_def backslash_not_in_replace split: list.splits)
next
  assume sb: "startswith_sep b"
  then have ne: "b \<noteq> []" by (auto simp: startswith_sep_def)
  show "join_remote (parts @ [b]) = replace_backslash b"
  proof (cases "filter (\<lambda>part. part \<noteq> []) parts")
    case Nil
    then show ?thesis using ne by (simp add: join_remote_def posixpath_join_def replace_backslash_def)
  next
    case (Cons a p)
    then show ?thesis using ne sb
      by (simp add: join_remote_def posixpath_join_def join_step_def)
  qed
next
  assume h: "(\<forall>q \<in> set (tl (filter (\<lambda>part. part \<noteq> []) parts)). \<not> startswith_sep q)
        \<and> (\<forall>q \<in> set (butlast (filter (\<lambda>part. part \<noteq> []) parts)). \<not> endswith_sep q)"
  show "join_remote parts = spec_joinRemote parts"
  proof (cases "filter (\<lambda>part. part \<noteq> []) parts")
    case Nil
    then show ?thesis by (simp add: join_remote_def spec_joinRemote_def replace_backslash_def)
  next
    case (Cons a p)
    have "\<forall>q \<in> set (filter (\<lambda>part. part \<noteq> []) parts). q \<noteq> []" by simp
    then have ne: "\<forall>q \<in> set (a # p). q \<noteq> []" unfolding Cons .
    then have a: "a \<noteq> []" by simp
    have p: "\<forall>b \<in> set p. b \<noteq> [] \<and> \<not> startswith_sep b"
      using h ne Cons by simp
    have e: "\<forall>b \<in> set (butlast (a # p)). \<not> endswith_sep b"
      using h Cons by simp
    show ?thesis
      using posixpath_join_plain [OF p e a] Cons
      by (simp add: join_remote_def spec_joinRemote_def)
  qed
qed

text \<open>
  Claim C7, amended, on \<open>("a", "/b", "c")\<close>, \<open>("a//", "b")\<close>, \<open>("a/", "", "b")\<close>,
  \<open>("/home/u", "", "sub")\<close> with and without \<open>"/abs"\<close> appended, and two empty fragments.
\<close>

theorem C7_join_remote_amended_witness:
  "join_remote [''a'', ''/b'', ''c''] = ''/b/c''
   \<and> join_remote [''a//'', ''b''] = ''a//b''
   \<and> join_remote [''a/'', '''', ''b''] = ''a/b''
   \<and> join_remote ([''/home/u'', '''', ''sub''] @ [''/abs'']) = ''/abs''
   \<and> join_remote [''/home/u'', '''', ''sub''] = ''/home/u/sub''
   \<and> join_remote ['''', ''''] = []"
proof -
  have r: "replace_backslash ''a'' = ''a''" "replace_backslash ''/b'' = ''/b''"
    "replace_backslash ''c'' = ''c''" "replace_backslash ''a//'' = ''a//''"
    "replace_backslash ''b'' = ''b''" "replace_backslash ''a/'' = ''a/''"
    "replace_backslash ''/abs'' = ''/abs''"
    by (simp_all add: replace_backslash_def sep_def backslash_def)
  have s: "startswith_sep ''/b''" "\<not> startswith_sep ''c''" "\<not> startswith_sep ''b''"
    "startswith_sep ''/abs''"
    by (simp_all add: startswith_sep_def sep_def)
  have e: "\<not> endswith_sep ''/b''" "endswith_sep ''a//''" "endswith_sep ''a/''"
    by (simp_all add: endswith_sep_def sep_def)
  have ab: "join_remote ([''a''] @ [''/b'']) = ''/b''"
    using C7_join_remote_amended [of "[]" "''a''" "[''a'']" "''/b''" "[]"] s r by simp
  have 1: "join_remote ([''a'', ''/b''] @ [''c'']) = ''/b/c''"
    using C7_join_remote_amended [of "[]" "''a''" "[''a'', ''/b'']" "''c''" "[]"] s r e ab
    by (simp add: sep_def)
  have a2: "join_remote [''a//''] = ''a//''"
    using C7_join_remote_amended [of "[]" "''a//''" "[]" "[]" "[]"] r by simp
  have 2: "join_remote ([''a//''] @ [''b'']) = ''a//b''"
    using C7_join_remote_amended [of "[]" "''a//''" "[''a//'']" "''b''" "[]"] s r e a2 by simp
  have a3: "join_remote [''a/''] = ''a/''"
    using C7_join_remote_amended [of "[]" "''a/''" "[]" "[]" "[]"] r by simp
  have ab3: "join_remote ([''a/''] @ [''b'']) = ''a/b''"
    using C7_join_remote_amended [of "[]" "''a/''" "[''a/'']" "''b''" "[]"] s r e a3 by simp
  have 3: "join_remote [''a/'', '''', ''b''] = ''a/b''"
    using C7_join_remote_amended [of "[''a/'', '''', ''b'']" "[]" "[]" "[]" "[]"] ab3 by simp
  have c: "(\<forall>q \<in> set (tl (filter (\<lambda>part. part \<noteq> []) [''/home/u'', '''', ''sub''])). \<not> startswith_sep q)
        \<and> (\<forall>q \<in> set (butlast (filter (\<lambda>part. part \<noteq> []) [''/home/u'', '''', ''sub''])). \<not> endswith_sep q)"
    by (simp add: startswith_sep_def endswith_sep_def sep_def)
  have sp: "spec_joinRemote [''/home/u'', '''', ''sub''] = ''/home/u/sub''"
    by (simp add: spec_joinRemote_def replace_backslash_def sep_def backslash_def)
  note inst = C7_join_remote_amended [of "[''/home/u'', '''', ''sub'']" "[]" "[]" "[]" "''/abs''"]
  from inst have "startswith_sep ''/abs'' \<longrightarrow>
      join_remote ([''/home/u'', '''', ''sub''] @ [''/abs'']) = replace_backslash ''/abs''"
    by (elim conjE)
  then have 4: "join_remote ([''/home/u'', '''', ''sub''] @ [''/abs'']) = ''/abs''"
    using s r by simp
  from inst have "(\<forall>q \<in> set (tl (filter (\<lambda>part. part \<noteq> []) [''/home/u'', '''', ''sub''])). \<not> startswith_sep q)
        \<and> (\<forall>q \<in> set (butlast (filter (\<lambda>part. part \<noteq> []) [''/home/u'', '''', ''sub''])). \<not> endswith_sep q)
      \<longrightarrow> join_remote [''/home/u'', '''', ''sub''] = spec_joinRemote [''/home/u'', '''', ''sub'']"
    by (elim conjE)
  with c have "join_remote [''/home/u'', '''', ''sub''] = spec_joinRemote [''/home/u'', '''', ''sub'']"
    by (rule rev_mp)
  then have 5: "join_remote [''/home/u'', '''', ''sub''] = ''/home/u/sub''"
    unfolding sp .
  have "filter (\<lambda>part. part \<noteq> []) ['''', ''''] = ([]::string list)" by simp
  with C7_join_remote_amended [of "['''', '''']" "[]" "[]" "[]" "[]"]
  have 6: "join_remote ['''', ''''] = []" by blast
  show ?thesis using 1 2 3 4 5 6 by simp
qed

section \<open>The remote session: properties\<close>

lemma log_call_simps [simp]:
  "calls (log_call c w) = calls w @ [c]"
  "rstat (log_call c w) = rstat w"
  "rlistdir (log_call c w) = rlistdir w"
  "mkdir_reply (log_call c w) = mkdir_reply w"
  "put_reply (log_call c w) = put_reply w"
  "get_reply (log_call c w) = get_reply w"
  "lmkdir_reply (log_call c w) = lmkdir_reply w"
  by (simp_all add: log_call_def)

lemma rexists_log [simp]: "rexists (log_call c w) p = rexists w p"
  by (simp add: rexists_def)

lemma sftp_stat_cases:
  "sftp_stat w p =
     (case rstat w p of
        NotFound \<Rightarrow> (Inl FileNotFoundError, log_call (Stat p) w)
      | StatFails msg \<Rightarrow> (Inl (OtherError msg), log_call (Stat p) w)
      | Attrs m \<Rightarrow> (Inr m, log_call (Stat p) w))"
  by (simp add: sftp_stat_def Let_def split: stat_reply.splits)

lemma ensure_loop_all_exist:
  "\<forall>d \<in> set ds. rexists w d \<Longrightarrow>
   ensure_loop w ds = (Inr (), w\<lparr>calls := calls w @ map Stat ds\<rparr>)"
proof (induction ds arbitrary: w)
  case Nil
  then show ?case by simp
next
  case (Cons d ds)
  from Cons.prems obtain m where m: "rstat w d = Attrs m"
    by (auto simp: rexists_def split: stat_reply.splits)
  have "\<forall>x \<in> set ds. rexists (log_call (Stat d) w) x" using Cons.prems by simp
  from Cons.IH [OF this] show ?case
    using m by (simp add: sftp_stat_cases log_call_def)
qed

lemma ensure_loop_mono:
  "ensure_loop w ds = (r, w') \<Longrightarrow> rexists w p \<Longrightarrow> rexists w' p"
proof (induction ds arbitrary: w)
  case Nil
  then show ?case by simp
next
  case (Cons d ds)
  show ?case
  proof (cases "rstat w d")
    case NotFound
    show ?thesis
    proof (cases "mkdir_reply w d")
      case None
      let ?w2 = "(log_call (Mkdir d) (log_call (Stat d) w))\<lparr>rstat := (rstat w)(d := Attrs (S_IFDIR_mode + 511))\<rparr>"
      have "ensure_loop ?w2 ds = (r, w')"
        using Cons.prems(1) NotFound None by (simp add: sftp_stat_cases sftp_mkdir_def Let_def)
      moreover have "rexists ?w2 p" using Cons.prems(2) by (simp add: rexists_def)
      ultimately show ?thesis by (rule Cons.IH)
    next
      case (Some msg)
      then show ?thesis using Cons.prems NotFound
        by (auto simp: sftp_stat_cases sftp_mkdir_def Let_def)
    qed
  next
    case (StatFails msg)
    then show ?thesis using Cons.prems by (auto simp: sftp_stat_cases)
  next
    case (Attrs m)
    then have "ensure_loop (log_call (Stat d) w) ds = (r, w')"
      using Cons.prems(1) by (simp add: sftp_stat_cases)
    moreover have "rexists (log_call (Stat d) w) p" using Cons.prems(2) by simp
    ultimately show ?thesis by (rule Cons.IH)
  qed
qed

lemma ensure_loop_success_exists:
  "ensure_loop w ds = (Inr (), w') \<Longrightarrow> d \<in> set ds \<Longrightarrow> rexists w' d"
proof (induction ds arbitrary: w)
  case Nil
  then show ?case by simp
next
  case (Cons x ds)
  show ?case
  proof (cases "rstat w x")
    case NotFound
    show ?thesis
    proof (cases "mkdir_reply w x")
      case None
      let ?w2 = "(log_call (Mkdir x) (log_call (Stat x) w))\<lparr>rstat := (rstat w)(x := Attrs (S_IFDIR_mode + 511))\<rparr>"
      have run: "ensure_loop ?w2 ds = (Inr (), w')"
        using Cons.prems(1) NotFound None by (simp add: sftp_stat_cases sftp_mkdir_def Let_def)
      show ?thesis
      proof (cases "d = x")
        case True
        have "rexists ?w2 x" by (simp add: rexists_def)
        with run True show ?thesis using ensure_loop_mono by blast
      next
        case False
        with Cons.prems(2) have "d \<in> set ds" by simp
        with run show ?thesis by (rule Cons.IH)
      qed
    next
      case (Some msg)
      then show ?thesis using Cons.prems NotFound
        by (auto simp: sftp_stat_cases sftp_mkdir_def Let_def)
    qed
  next
    case (StatFails msg)
    then show ?thesis using Cons.prems by (auto simp: sftp_stat_cases)
  next
    case (Attrs m)
    then have run: "ensure_loop (log_call (Stat x) w) ds = (Inr (), w')"
      using Cons.prems(1) by (simp add: sftp_stat_cases)
    show ?thesis
    proof (cases "d = x")
      case True
      have "rexists (log_call (Stat x) w) x" using Attrs by (simp add: rexists_def)
      with run True show ?thesis using ensure_loop_mono by blast
    next
      case False
      with Cons.prems(2) have "d \<in> set ds" by simp
      with run show ?thesis by (rule Cons.IH)
    qed
  qed
qed

text \<open>
  The loop of \<open>_ensure_remote_dir\<close> does not end on \<open>//\<close>: \<open>dirname\<close> maps it to itself
  and it is neither empty nor \<open>/\<close>. The statements below about a call that returned
  say nothing about such a path.
\<close>

lemma dirname_double_slash: "dirname ''//'' = ''//''"
  by (simp add: dirname_def rfind_sep_def rstrip_sep_def sep_def)

lemma collect_parts_double_slash: "collect_parts ''//'' acc = None"
proof (rule ccontr)
  assume "collect_parts ''//'' acc \<noteq> None"
  then obtain parts where some: "collect_parts ''//'' acc = Some parts" by auto
  have "''//'' \<noteq> ''//''"
  proof (rule collect_parts.raw_induct
      [where P = "\<lambda>p acc parts. p \<noteq> ''//''", OF _ some], goal_cases)
    case (1 f path parts y)
    show ?case
    proof
      assume p: "path = ''//''"
      then have "f ''//'' (parts @ [path]) = Some y"
        using 1(2) by (simp add: dirname_double_slash)
      from 1(1) [OF this] show False by simp
    qed
  qed
  then show False by simp
qed

lemma ensure_remote_dir_double_slash: "ensure_remote_dir w ''//'' = None"
  by (simp add: ensure_remote_dir_def collect_parts_double_slash Let_def)

text \<open>
  Claim C3: \<open>_ensure_remote_dir\<close> is idempotent. After a call that returned
  normally, a second call with the same path returns normally as well, issues no
  \<open>mkdir\<close>, and leaves the server as it was.
\<close>

theorem C3_ensure_idempotent:
  assumes "ensure_remote_dir w remote_dir = Some (Inr (), w1)"
  shows "\<exists>w2. ensure_remote_dir w1 remote_dir = Some (Inr (), w2)
           \<and> (\<forall>d. Mkdir d \<notin> set (new_calls w1 w2))
           \<and> rstat w2 = rstat w1"
proof (cases "remote_dir = [] \<or> remote_dir = ''.''")
  case True
  then show ?thesis
    by (auto simp: ensure_remote_dir_def Let_def new_calls_def)
next
  case False
  with assms obtain parts where parts: "collect_parts remote_dir [] = Some parts"
    and run: "ensure_loop (log_call (EnsureRemoteDir remote_dir) w) (rev parts) = (Inr (), w1)"
    by (auto simp: ensure_remote_dir_def Let_def split: option.splits)
  let ?w0 = "log_call (EnsureRemoteDir remote_dir) w1"
  have "\<forall>d \<in> set (rev parts). rexists ?w0 d"
    using ensure_loop_success_exists [OF run] by simp
  from ensure_loop_all_exist [OF this]
  have "ensure_remote_dir w1 remote_dir
          = Some (Inr (), ?w0\<lparr>calls := calls ?w0 @ map Stat (rev parts)\<rparr>)"
    using False parts by (simp add: ensure_remote_dir_def Let_def)
  then show ?thesis by (auto simp: new_calls_def)
qed

lemma collect_parts_abc:
  "collect_parts ''/a/b/c'' [] = Some [''/a/b/c'', ''/a/b'', ''/a'']"
  by (simp add: collect_parts.simps dirname_def rfind_sep_def rstrip_sep_def sep_def)

text \<open>
  Claim C3 on a server where nothing exists: the first call creates \<open>/a\<close>, \<open>/a/b\<close>
  and \<open>/a/b/c\<close>, the second creates nothing.
\<close>

theorem C3_ensure_idempotent_witness:
  "\<exists>w1 w2. ensure_remote_dir empty_server ''/a/b/c'' = Some (Inr (), w1)
      \<and> ensure_remote_dir w1 ''/a/b/c'' = Some (Inr (), w2)
      \<and> (\<forall>d. Mkdir d \<notin> set (new_calls w1 w2))
      \<and> rstat w2 = rstat w1"
proof -
  have "\<exists>w1. ensure_remote_dir empty_server ''/a/b/c'' = Some (Inr (), w1)"
    by (simp add: ensure_remote_dir_def collect_parts_abc sftp_stat_cases sftp_mkdir_def
        empty_server_def Let_def)
  then obtain w1 where h: "ensure_remote_dir empty_server ''/a/b/c'' = Some (Inr (), w1)" ..
  from C3_ensure_idempotent [OF h] h show ?thesis by blast
qed

lemma sftp_mkdir_cases:
  "sftp_mkdir w p =
     (case mkdir_reply w p of
        Some msg \<Rightarrow> (Inl (OtherError msg), log_call (Mkdir p) w)
      | None \<Rightarrow> (Inr (), (log_call (Mkdir p) w)\<lparr>rstat := (rstat w)(p := Attrs (S_IFDIR_mode + 511))\<rparr>))"
  by (simp add: sftp_mkdir_def Let_def split: option.splits)

lemma ensure_loop_mkdirs:
  "ensure_loop w ds = (r, w') \<Longrightarrow> distinct ds \<Longrightarrow>
   \<exists>t. calls w' = calls w @ t
       \<and> subseq (filter is_mkdir t) (map Mkdir ds)
       \<and> (\<forall>d. Mkdir d \<in> set t \<longrightarrow> rstat w d = NotFound)"
proof (induction ds arbitrary: w)
  case Nil
  then show ?case by simp
next
  case (Cons x ds)
  have dist: "distinct ds" and notin: "x \<notin> set ds" using Cons.prems(2) by auto
  show ?case
  proof (cases "rstat w x")
    case NotFound
    show ?thesis
    proof (cases "mkdir_reply w x")
      case None
      let ?w2 = "(log_call (Mkdir x) (log_call (Stat x) w))\<lparr>rstat := (rstat w)(x := Attrs (S_IFDIR_mode + 511))\<rparr>"
      have run: "ensure_loop ?w2 ds = (r, w')"
        using Cons.prems(1) NotFound None by (simp add: sftp_stat_cases sftp_mkdir_cases)
      from Cons.IH [OF run dist] obtain t where t: "calls w' = calls ?w2 @ t"
        "subseq (filter is_mkdir t) (map Mkdir ds)"
        "\<forall>d. Mkdir d \<in> set t \<longrightarrow> rstat ?w2 d = NotFound" by blast
      have c: "calls w' = calls w @ (Stat x # Mkdir x # t)" using t(1) by simp
      have s: "subseq (filter is_mkdir (Stat x # Mkdir x # t)) (map Mkdir (x # ds))"
        using t(2) by simp
      have n: "\<forall>d. Mkdir d \<in> set (Stat x # Mkdir x # t) \<longrightarrow> rstat w d = NotFound"
      proof (intro allI impI)
        fix d assume "Mkdir d \<in> set (Stat x # Mkdir x # t)"
        then consider "d = x" | "Mkdir d \<in> set t" by auto
        then show "rstat w d = NotFound"
        proof cases
          case 1 then show ?thesis using NotFound by simp
        next
          case 2
          with t(3) have "rstat ?w2 d = NotFound" by blast
          then show ?thesis by (simp split: if_splits)
        qed
      qed
      from c s n show ?thesis by blast
    next
      case (Some msg)
      then have "w' = log_call (Mkdir x) (log_call (Stat x) w)"
        using Cons.prems(1) NotFound by (simp add: sftp_stat_cases sftp_mkdir_cases)
      then have "calls w' = calls w @ [Stat x, Mkdir x]" by simp
      moreover have "subseq (filter is_mkdir [Stat x, Mkdir x]) (map Mkdir (x # ds))" by simp
      moreover have "\<forall>d. Mkdir d \<in> set [Stat x, Mkdir x] \<longrightarrow> rstat w d = NotFound"
        using NotFound by simp
      ultimately show ?thesis by blast
    qed
  next
    case (StatFails msg)
    then have "w' = log_call (Stat x) w" using Cons.prems(1) by (simp add: sftp_stat_cases)
    then have "calls w' = calls w @ [Stat x]" by simp
    moreover have "subseq (filter is_mkdir [Stat x]) (map Mkdir (x # ds))" by simp
    ultimately show ?thesis by fastforce
  next
    case (Attrs m)
    then have run: "ensure_loop (log_call (Stat x) w) ds = (r, w')"
      using Cons.prems(1) by (simp add: sftp_stat_cases)
    from Cons.IH [OF run dist] obtain t where t: "calls w' = calls (log_call (Stat x) w) @ t"
        "subseq (filter is_mkdir t) (map Mkdir ds)"
        "\<forall>d. Mkdir d \<in> set t \<longrightarrow> rstat (log_call (Stat x) w) d = NotFound" by blast
    have c: "calls w' = calls w @ (Stat x # t)" using t(1) by simp
    have s: "subseq (filter is_mkdir (Stat x # t)) (map Mkdir (x # ds))"
      using t(2) by (auto intro: list_emb_Cons)
    have n: "\<forall>d. Mkdir d \<in> set (Stat x # t) \<longrightarrow> rstat w d = NotFound" using t(3) by simp
    from c s n show ?thesis by blast
  qed
qed

text \<open>
  Claim C4: for \<open>/a/b/c\<close>, \<open>_ensure_remote_dir\<close> always returns, its \<open>mkdir\<close> calls
  are taken in order from \<open>/a\<close>, \<open>/a/b\<close>, \<open>/a/b/c\<close>, and a level is created only if
  its \<open>stat\<close> reported it missing. When none of the three exists (and no \<open>mkdir\<close>
  fails) the calls are exactly: stat and create \<open>/a\<close>, stat and create \<open>/a/b\<close>, stat
  and create \<open>/a/b/c\<close>.
\<close>

theorem C4_ensure_creation_order:
  "(\<exists>r w'. ensure_remote_dir w ''/a/b/c'' = Some (r, w')
      \<and> subseq (filter is_mkdir (new_calls w w')) [Mkdir ''/a'', Mkdir ''/a/b'', Mkdir ''/a/b/c'']
      \<and> (\<forall>d. Mkdir d \<in> set (new_calls w w') \<longrightarrow> rstat w d = NotFound))
   \<and> (rstat w ''/a'' = NotFound \<and> rstat w ''/a/b'' = NotFound \<and> rstat w ''/a/b/c'' = NotFound
      \<and> mkdir_reply w ''/a'' = None \<and> mkdir_reply w ''/a/b'' = None
      \<and> mkdir_reply w ''/a/b/c'' = None
      \<longrightarrow> (\<exists>w'. ensure_remote_dir w ''/a/b/c'' = Some (Inr (), w')
             \<and> new_calls w w' = [EnsureRemoteDir ''/a/b/c'', Stat ''/a'', Mkdir ''/a'',
                  Stat ''/a/b'', Mkdir ''/a/b'', Stat ''/a/b/c'', Mkdir ''/a/b/c'']
             \<and> filter is_mkdir (new_calls w w')
                  = [Mkdir ''/a'', Mkdir ''/a/b'', Mkdir ''/a/b/c'']))"
proof (intro conjI impI)
  let ?w0 = "log_call (EnsureRemoteDir ''/a/b/c'') w"
  obtain r w' where run: "ensure_loop ?w0 [''/a'', ''/a/b'', ''/a/b/c''] = (r, w')"
    by (cases "ensure_loop ?w0 [''/a'', ''/a/b'', ''/a/b/c'']") blast
  have e: "ensure_remote_dir w ''/a/b/c'' = Some (r, w')"
    using run by (simp add: ensure_remote_dir_def collect_parts_abc Let_def)
  have "distinct [''/a'', ''/a/b'', ''/a/b/c'']" by simp
  from ensure_loop_mkdirs [OF run this] obtain t where t: "calls w' = calls ?w0 @ t"
      "subseq (filter is_mkdir t) (map Mkdir [''/a'', ''/a/b'', ''/a/b/c''])"
      "\<forall>d. Mkdir d \<in> set t \<longrightarrow> rstat ?w0 d = NotFound" by blast
  have nc: "new_calls w w' = EnsureRemoteDir ''/a/b/c'' # t"
    using t(1) by (simp add: new_calls_def)
  show "\<exists>r w'. ensure_remote_dir w ''/a/b/c'' = Some (r, w')
      \<and> subseq (filter is_mkdir (new_calls w w')) [Mkdir ''/a'', Mkdir ''/a/b'', Mkdir ''/a/b/c'']
      \<and> (\<forall>d. Mkdir d \<in> set (new_calls w w') \<longrightarrow> rstat w d = NotFound)"
    using e nc t(2,3) by (intro exI [of _ r] exI [of _ w']) simp
next
  assume h: "rstat w ''/a'' = NotFound \<and> rstat w ''/a/b'' = NotFound \<and> rstat w ''/a/b/c'' = NotFound
      \<and> mkdir_reply w ''/a'' = None \<and> mkdir_reply w ''/a/b'' = None
      \<and> mkdir_reply w ''/a/b/c'' = None"
  then show "\<exists>w'. ensure_remote_dir w ''/a/b/c'' = Some (Inr (), w')
             \<and> new_calls w w' = [EnsureRemoteDir ''/a/b/c'', Stat ''/a'', Mkdir ''/a'',
                  Stat ''/a/b'', Mkdir ''/a/b'', Stat ''/a/b/c'', Mkdir ''/a/b/c'']
             \<and> filter is_mkdir (new_calls w w')
                  = [Mkdir ''/a'', Mkdir ''/a/b'', Mkdir ''/a/b/c'']"
    by (simp add: ensure_remote_dir_def collect_parts_abc Let_def sftp_stat_cases
        sftp_mkdir_cases new_calls_def)
qed

text \<open>Claim C4 on the server where nothing exists.\<close>

theorem C4_ensure_creation_order_witness:
  "\<exists>w'. ensure_remote_dir empty_server ''/a/b/c'' = Some (Inr (), w')
         \<and> filter is_mkdir (new_calls empty_server w')
              = [Mkdir ''/a'', Mkdir ''/a/b'', Mkdir ''/a/b/c'']"
proof -
  have "rstat empty_server ''/a'' = NotFound \<and> rstat empty_server ''/a/b'' = NotFound
      \<and> rstat empty_server ''/a/b/c'' = NotFound
      \<and> mkdir_reply empty_server ''/a'' = None \<and> mkdir_reply empty_server ''/a/b'' = None
      \<and> mkdir_reply empty_server ''/a/b/c'' = None"
    by (simp add: empty_server_def)
  with C4_ensure_creation_order [of empty_server] show ?thesis by blast
qed

section \<open>\<open>upload\<close> and \<open>download\<close>: dispatch\<close>

text \<open>
  Claim C5: when the (user-expanded) local path does not exist, \<open>upload\<close> fails with
  \<open>SystemExit("Local path does not exist: ...")\<close>, the code's form of
  \<open>LocalPathNotFound\<close>, and the world is the one it started from: no call was made.
\<close>

theorem C5_upload_missing_local:
  assumes "\<not> os_path_exists fs (expanduser fs local_path)"
  shows "upload fs w local_path remote_path
           = Some (Inl (SystemExit (''Local path does not exist: '' @ expanduser fs local_path)), w)
         \<and> (\<exists>w'. upload fs w local_path remote_path
                  = Some (Inl (SystemExit (''Local path does not exist: ''
                                            @ expanduser fs local_path)), w')
                \<and> new_calls w w' = [] \<and> w' = w)"
  using assms by (simp add: upload_def Let_def new_calls_def)

text \<open>Claim C5 on a machine without files.\<close>

theorem C5_upload_missing_local_witness:
  "\<not> os_path_exists no_local (expanduser no_local ''nowhere'')
   \<and> upload no_local empty_server ''nowhere'' ''/home/u/target''
       = Some (Inl (SystemExit ''Local path does not exist: nowhere''), empty_server)"
proof -
  have h: "\<not> os_path_exists no_local (expanduser no_local ''nowhere'')"
    by (simp add: os_path_exists_def no_local_def)
  have e: "expanduser no_local ''nowhere'' = ''nowhere''" by (simp add: no_local_def)
  from C5_upload_missing_local [OF h, of empty_server "''/home/u/target''"] h e
  show ?thesis by simp
qed

text \<open>
  Claim C6: \<open>_is_remote_dir\<close> fails with \<open>SystemExit("Remote path does not exist: ...")\<close>,
  the code's form of \<open>RemotePathNotFound\<close>, exactly when \<open>stat\<close> reports the path
  missing; on an existing path it answers from the mode bits; any other failure of
  \<open>stat\<close> is passed on as it is; and \<open>download\<close> fails the same way.
\<close>

theorem C6_classify:
  "((\<exists>msg. fst (is_remote_dir w remote_path) = Inl (SystemExit msg))
      \<longleftrightarrow> rstat w remote_path = NotFound)
   \<and> (rstat w remote_path = NotFound \<longrightarrow>
        is_remote_dir w remote_path
          = (Inl (SystemExit (''Remote path does not exist: '' @ remote_path)),
             log_call (Stat remote_path) w)
        \<and> download depth fs w remote_path local_path
          = Some (Inl (SystemExit (''Remote path does not exist: '' @ remote_path)),
                  log_call (Stat remote_path) w))
   \<and> (\<forall>st_mode. rstat w remote_path = Attrs st_mode \<longrightarrow>
        is_remote_dir w remote_path
          = (Inr (and st_mode 61440 = 16384), log_call (Stat remote_path) w))
   \<and> (\<forall>msg. rstat w remote_path = StatFails msg \<longrightarrow>
        is_remote_dir w remote_path = (Inl (OtherError msg), log_call (Stat remote_path) w)
        \<and> download depth fs w remote_path local_path
          = Some (Inl (OtherError msg), log_call (Stat remote_path) w))"
  by (cases "rstat w remote_path")
     (simp_all add: is_remote_dir_def download_def sftp_stat_cases S_ISDIR_def S_IFDIR_mode_def)

text \<open>Claim C6 for a path the server does not have.\<close>

theorem C6_classify_witness:
  "rstat empty_server ''/r/missing'' = NotFound
   \<and> is_remote_dir empty_server ''/r/missing''
       = (Inl (SystemExit ''Remote path does not exist: /r/missing''),
          log_call (Stat ''/r/missing'') empty_server)
   \<and> download 5 no_local empty_server ''/r/missing'' ''/local/out''
       = Some (Inl (SystemExit ''Remote path does not exist: /r/missing''),
               log_call (Stat ''/r/missing'') empty_server)"
proof -
  have h: "rstat empty_server ''/r/missing'' = NotFound" by (simp add: empty_server_def)
  from C6_classify [of empty_server "''/r/missing''" 5 no_local "''/local/out''"] h
  show ?thesis by simp
qed



section \<open>Directory trees: order of the calls\<close>






lemma upload_plan_append:
  "upload_plan fs ld rd (a @ b) = upload_plan fs ld rd a @ upload_plan fs ld rd b"
  by (simp add: upload_plan_def)








text \<open>
  The scenario of the specification on a server where nothing exists: the target is
  materialised, \<open>a.txt\<close> is put, \<open>sub\<close> is materialised, \<open>b.txt\<close> is put.
\<close>

lemma upload_scenario:
  "observed empty_server ''/home/u/target/sub''
     (upload scenario_fs empty_server ''root'' ''/home/u/target'')
   = Some (Inr (),
       [EnsureRemoteDir ''/home/u/target'', Stat ''/home'', Mkdir ''/home'',
        Stat ''/home/u'', Mkdir ''/home/u'', Stat ''/home/u/target'', Mkdir ''/home/u/target'',
        Put ''/work/root/a.txt'' ''/home/u/target/a.txt'',
        EnsureRemoteDir ''/home/u/target/sub'', Stat ''/home'', Stat ''/home/u'',
        Stat ''/home/u/target'', Stat ''/home/u/target/sub'', Mkdir ''/home/u/target/sub'',
        Put ''/work/root/sub/b.txt'' ''/home/u/target/sub/b.txt''],
       True)"
  by code_simp

text \<open>
  Claim C1 fails on a file whose name holds a backslash. \<open>_upload_directory\<close> ensures
  \<open>remote_root\<close> and takes it for the parent of every file it puts, but \<open>_join_remote\<close>
  turns the backslash of the name into a slash: uploading \<open>root\<close> to \<open>/t\<close> puts the
  file to \<open>/t/a/b.txt\<close> after materialising \<open>/t\<close> only, and \<open>/t/a\<close>, the directory the
  file goes into, is neither ensured nor created. The single-file branch of \<open>upload\<close>
  ensures \<open>posixpath.dirname(remote_path)\<close>: the same file sent on its own to
  \<open>/t/a/b.txt\<close> has \<open>/t/a\<close> created first.
\<close>

theorem C1_upload_backslash_name:
  "observed empty_server ''/t/a'' (upload backslash_fs empty_server ''root'' ''/t'')
     = Some (Inr (),
         [EnsureRemoteDir ''/t'', Stat ''/t'', Mkdir ''/t'',
          Put (''/work/root/'' @ backslash_name) ''/t/a/b.txt''],
         False)
   \<and> dirname ''/t/a/b.txt'' = ''/t/a''
   \<and> observed empty_server ''/t/a''
         (upload backslash_fs empty_server (''root/'' @ backslash_name) ''/t/a/b.txt'')
     = Some (Inr (),
         [EnsureRemoteDir ''/t/a'', Stat ''/t'', Mkdir ''/t'', Stat ''/t/a'', Mkdir ''/t/a'',
          Put (''root/'' @ backslash_name) ''/t/a/b.txt''],
         True)"
  by code_simp

section \<open>Every walked directory is created\<close>











subsection \<open>The loop of \<open>_ensure_remote_dir\<close> ends\<close>





subsection \<open>Runs that return\<close>

lemma never_fails_log [simp]: "never_fails (log_call c w) = never_fails w"
  by (simp add: never_fails_def log_call_def)

lemma never_fails_calls [simp]: "never_fails (w\<lparr>calls := t\<rparr>) = never_fails w"
  by (simp add: never_fails_def)

lemma never_fails_rstat:
  "never_fails w \<Longrightarrow> never_fails (w\<lparr>rstat := (rstat w)(p := Attrs m)\<rparr>)"
  by (simp add: never_fails_def)

















lemma listed_mono: "listed depth listing rd \<Longrightarrow> listed (Suc depth) listing rd"
proof (induction depth arbitrary: rd)
  case 0
  then show ?case by simp
next
  case (Suc depth)
  then show ?case by (cases "listing rd") (auto simp del: listed.simps(2) simp add: listed.simps(2) [of depth] listed.simps(2) [of "Suc depth"])
qed

subsection \<open>The claim\<close>










section \<open>\<open>quicksort.py\<close>: properties\<close>

subsection \<open>\<open>quicksort\<close> on contents\<close>






lemma length_adversary [simp]: "length (adversary n) = n"
  by (induction n) auto





subsection \<open>\<open>quicksort\<close> on list objects\<close>



subsection \<open>\<open>quicksort_inplace\<close>\<close>










subsection \<open>The two claims about sorting\<close>

lemma single_store_simps [simp]:
  "next_ref (single_store xs) = 1" "cell (single_store xs) 0 = xs"
  by (simp_all add: single_store_def)








end
